theory Spec2Isabelle
  imports Main "HOL-Library.Char_ord" "HOL-Library.List_Lexorder" "HOL-Library.AList"
begin

section \<open>JavaScript values used by ps5.js\<close>

text \<open>
  The values that reach \<^verbatim>\<open>groupBy\<close> as group names. The program never computes with a
  number: it compares group names as Map keys, and it turns them into strings (to sort
  them, to name a property, to concatenate). A Map holds two numbers under one key exactly
  when \<^verbatim>\<open>ToString\<close> prints them alike (the two zeros both print \<open>0\<close>, \<^verbatim>\<open>NaN\<close> is one
  key), so a number is given here by the string \<^verbatim>\<open>ToString\<close> prints for it: \<open>Num ''2''\<close>,
  \<open>Num ''-1''\<close>, \<open>Num ''1.5''\<close>, \<open>Num ''1e+21''\<close>. Strings are lists of 8-bit characters
  compared by character code, as JavaScript compares code units. \<open>Native n\<close> is the
  built-in object that \<^verbatim>\<open>Object.prototype\<close> holds under the name \<open>n\<close>.
\<close>

datatype jsval = Undefined | Null | Bool bool | Num string | Str string | Native string

text \<open>
  An item is a plain object, as \<^verbatim>\<open>response.json()\<close> builds them: its own data properties
  in creation order, each name once, and \<^verbatim>\<open>Object.prototype\<close> as its prototype. Reading
  a name the item does not own finds what \<^verbatim>\<open>Object.prototype\<close> has under that name, and
  \<^verbatim>\<open>undefined\<close> when it has nothing.
\<close>

type_synonym obj = "(string \<times> jsval) list"

definition object_prototype_names :: "string list" where
  "object_prototype_names =
     [''constructor'', ''__defineGetter__'', ''__defineSetter__'', ''hasOwnProperty'',
      ''__lookupGetter__'', ''__lookupSetter__'', ''isPrototypeOf'', ''propertyIsEnumerable'',
      ''toString'', ''valueOf'', ''__proto__'', ''toLocaleString'']"

definition get_prop :: "obj \<Rightarrow> string \<Rightarrow> jsval" where
  "get_prop ob name =
     (case map_of ob name of
        Some v \<Rightarrow> v
      | None \<Rightarrow> if name \<in> set object_prototype_names then Native name else Undefined)"

text \<open>
  \<^verbatim>\<open>ToString\<close>, as used for property keys, sorting and concatenation. The built-in
  functions print as V8 prints them; under \<^verbatim>\<open>__proto__\<close> the built-in object is
  \<^verbatim>\<open>Object.prototype\<close> itself.
\<close>

fun toString :: "jsval \<Rightarrow> string" where
  "toString Undefined = ''undefined''"
| "toString Null = ''null''"
| "toString (Bool b) = (if b then ''true'' else ''false'')"
| "toString (Num s) = s"
| "toString (Str s) = s"
| "toString (Native n) =
     (if n = ''__proto__'' then ''[object Object]''
      else if n = ''constructor'' then ''function Object() { [native code] }''
      else ''function '' @ n @ ''() { [native code] }'')"

section \<open>The built-in containers\<close>

text \<open>
  A \<^verbatim>\<open>Map\<close> keeps its entries in insertion order; keys are compared by value.
  \<^verbatim>\<open>set\<close> on a new key appends an entry, on an existing key replaces the value in place.
\<close>

type_synonym 'v jsmap = "(jsval \<times> 'v) list"

definition Map_has :: "'v jsmap \<Rightarrow> jsval \<Rightarrow> bool" where
  "Map_has m k = (k \<in> fst ` set m)"

definition Map_set :: "'v jsmap \<Rightarrow> jsval \<Rightarrow> 'v \<Rightarrow> 'v jsmap" where
  "Map_set m k v = AList.update k v m"

definition Map_get :: "'v jsmap \<Rightarrow> jsval \<Rightarrow> 'v option" where
  "Map_get m k = map_of m k"

definition Map_keys :: "'v jsmap \<Rightarrow> jsval list" where
  "Map_keys m = map fst m"

text \<open>\<^verbatim>\<open>m.get(k).push(x)\<close>: the array stored under \<open>k\<close> is extended in place.\<close>

definition Map_get_push :: "'a list jsmap \<Rightarrow> jsval \<Rightarrow> 'a \<Rightarrow> 'a list jsmap" where
  "Map_get_push m k x = AList.map_entry k (\<lambda>g. g @ [x]) m"

text \<open>
  \<^verbatim>\<open>Array.prototype.sort()\<close> without a comparator: \<^verbatim>\<open>undefined\<close> elements go last,
  the others are ordered by their string forms; the sort is stable.
\<close>

definition sort_default :: "jsval list \<Rightarrow> jsval list" where
  "sort_default ks =
     sort_key toString (filter (\<lambda>k. k \<noteq> Undefined) ks) @ filter (\<lambda>k. k = Undefined) ks"

text \<open>
  A plain object whose values are arrays: its own string-keyed properties in creation order,
  and the array that an assignment to \<^verbatim>\<open>__proto__\<close> has made its prototype, if any.
  Assigning to an existing own key replaces the value in place, assigning to a new key
  appends an own property. Assigning an array to \<^verbatim>\<open>__proto__\<close> runs the setter inherited
  from \<^verbatim>\<open>Object.prototype\<close>: the array becomes the prototype and no own property is made.
\<close>

record 'v jsobject =
  props :: "(string \<times> 'v) list"
  proto :: "'v option"

definition empty_object :: "'v jsobject" where
  "empty_object = \<lparr>props = [], proto = None\<rparr>"

definition obj_assign :: "'v jsobject \<Rightarrow> string \<Rightarrow> 'v \<Rightarrow> 'v jsobject" where
  "obj_assign ob s v =
     (if s = ''__proto__'' then ob\<lparr>proto := Some v\<rparr>
      else ob\<lparr>props := AList.update s v (props ob)\<rparr>)"

definition own_value :: "'v jsobject \<Rightarrow> string \<Rightarrow> 'v option" where
  "own_value ob s = map_of (props ob) s"

definition digit_char :: "nat \<Rightarrow> char" where
  "digit_char d = ''0123456789'' ! d"

fun nat_digits :: "nat \<Rightarrow> string" where
  "nat_digits n =
     (if n < 10 then [digit_char n] else nat_digits (n div 10) @ [digit_char (n mod 10)])"

declare nat_digits.simps [simp del]

definition is_digit :: "char \<Rightarrow> bool" where
  "is_digit c = (48 \<le> (of_char c :: nat) \<and> (of_char c :: nat) \<le> 57)"

definition digits_value :: "string \<Rightarrow> nat" where
  "digits_value s = foldl (\<lambda>acc c. 10 * acc + (of_char c - 48)) 0 s"

text \<open>
  An array index is the canonical decimal form of an integer from \<open>0\<close> to \<open>2^32 - 2\<close>.
\<close>

definition is_array_index :: "string \<Rightarrow> bool" where
  "is_array_index s =
     (s \<noteq> [] \<and> list_all is_digit s \<and> nat_digits (digits_value s) = s
      \<and> digits_value s < 4294967295)"

text \<open>
  The order in which an object lists its own keys (\<^verbatim>\<open>Object.keys\<close>, and the first part of
  \<^verbatim>\<open>for ... in\<close>): array indices in ascending numeric order, then the other keys in
  creation order.
\<close>

definition keys_order :: "string list \<Rightarrow> string list" where
  "keys_order created =
     sort_key digits_value (filter is_array_index created)
     @ filter (\<lambda>s. \<not> is_array_index s) created"

definition ownKeys :: "'v jsobject \<Rightarrow> string list" where
  "ownKeys ob = keys_order (map fst (props ob))"

section \<open>groupBy\<close>

datatype selector = AttributeName string | Function "obj \<Rightarrow> jsval"

text \<open>Lines 17-20: an attribute name becomes the function reading that attribute.\<close>

fun as_function :: "selector \<Rightarrow> obj \<Rightarrow> jsval" where
  "as_function (Function f) = f"
| "as_function (AttributeName propName) = (\<lambda>ob. get_prop ob propName)"

text \<open>Lines 22-30: the loop filling the Map of groups.\<close>

fun group_loop :: "(obj \<Rightarrow> jsval) \<Rightarrow> obj list \<Rightarrow> obj list jsmap \<Rightarrow> obj list jsmap" where
  "group_loop property [] groupedObjects = groupedObjects"
| "group_loop property (object # rest) groupedObjects =
     (let groupName = property object;
          groupedObjects1 =
            (if \<not> Map_has groupedObjects groupName
             then Map_set groupedObjects groupName []
             else groupedObjects)
      in group_loop property rest (Map_get_push groupedObjects1 groupName object))"

text \<open>
  Lines 33-36: the loop copying the groups into a plain object, key by key. Every key comes
  from the Map's own key list, so \<^verbatim>\<open>get\<close> finds it.
\<close>

fun result_loop :: "jsval list \<Rightarrow> obj list jsmap \<Rightarrow> obj list jsobject \<Rightarrow> obj list jsobject" where
  "result_loop [] groupedObjects result = result"
| "result_loop (key # rest) groupedObjects result =
     (case Map_get groupedObjects key of
        Some g \<Rightarrow> result_loop rest groupedObjects (obj_assign result (toString key) g)
      | None \<Rightarrow> result_loop rest groupedObjects result)"

definition groupBy :: "obj list \<Rightarrow> selector \<Rightarrow> obj list jsobject" where
  "groupBy objects property =
     (let groupedObjects = group_loop (as_function property) objects []
      in result_loop (sort_default (Map_keys groupedObjects)) groupedObjects empty_object)"

text \<open>The groups the result owns, in the order of its own keys, and their concatenation.\<close>

definition entries :: "'v jsobject \<Rightarrow> (string \<times> 'v) list" where
  "entries ob =
     concat (map (\<lambda>s. case own_value ob s of Some v \<Rightarrow> [(s, v)] | None \<Rightarrow> []) (ownKeys ob))"

definition flatten :: "'a list jsobject \<Rightarrow> 'a list" where
  "flatten ob = concat (map snd (entries ob))"

text \<open>
  The order in which line 34 hands the Map's keys to the copying loop, and one iteration of
  the grouping loop (lines 24-29); both are used to state what the loops compute.
\<close>

definition write_order :: "obj list \<Rightarrow> selector \<Rightarrow> jsval list" where
  "write_order objects property =
     sort_default (Map_keys (group_loop (as_function property) objects []))"

definition group_step :: "obj list jsmap \<Rightarrow> jsval \<Rightarrow> obj \<Rightarrow> obj list jsmap" where
  "group_step m k x = Map_get_push (if \<not> Map_has m k then Map_set m k [] else m) k x"

definition add_new :: "'a list \<Rightarrow> 'a \<Rightarrow> 'a list" where
  "add_new ks k = (if k \<in> set ks then ks else ks @ [k])"

text \<open>The key whose group the copying loop writes last under the property name \<open>s\<close>.\<close>

definition winner :: "obj list \<Rightarrow> selector \<Rightarrow> string \<Rightarrow> jsval" where
  "winner objs sel s = last (filter (\<lambda>k. toString k = s) (write_order objs sel))"

section \<open>The page, the saved words and the renderers\<close>

text \<open>
  The DOM below \<^verbatim>\<open>#word_output\<close>: markup assigned through \<^verbatim>\<open>innerHTML\<close> is kept as written,
  created elements keep their tag and children, and a save button keeps its classes, its label
  and the word its click listener passes to \<^verbatim>\<open>addToSavedWords\<close>.
\<close>

datatype node = Raw string | Elem string "node list" | Button "string list" string jsval

fun save_controls :: "node \<Rightarrow> jsval list" where
  "save_controls (Raw s) = []"
| "save_controls (Button classes label w) = [w]"
| "save_controls (Elem tag children) = concat (map save_controls children)"

text \<open>
  The field \<open>savedWords\<close> is the markup last assigned to \<^verbatim>\<open>savedWords.innerHTML\<close>, as
  written. What the element then holds as text is decided by the HTML parser:
  \<open>text_content\<close> gives it for markup in which every character stands for itself, and for
  markup that ends inside a tag (a \<open><\<close> followed by a letter, with no \<open>>\<close> after it), where
  the parser drops the unfinished tag. On other markup \<open>text_content\<close> says nothing.
\<close>

record page =
  wordOutput :: "node list"
  wordInput :: string
  savedWords :: string
  savedWordsArray :: "jsval list"
  console :: "string list"

definition is_ascii_alpha :: "char \<Rightarrow> bool" where
  "is_ascii_alpha c =
     (c \<in> set ''abcdefghijklmnopqrstuvwxyzABCDEFGHIJKLMNOPQRSTUVWXYZ'')"

fun text_content :: "string \<Rightarrow> string option" where
  "text_content [] = Some []"
| "text_content (c # rest) =
     (if c = CHR ''<'' then
        (case rest of
           [] \<Rightarrow> None
         | d # _ \<Rightarrow>
             if is_ascii_alpha d then (if CHR ''>'' \<in> set rest then None else Some []) else None)
      else if c \<in> {CHR ''&'', CHR 0x00, CHR 0x0D} then None
      else map_option ((#) c) (text_content rest))"

text \<open>\<^verbatim>\<open>Array.prototype.join\<close>: \<^verbatim>\<open>undefined\<close> and \<^verbatim>\<open>null\<close> elements give the empty string.\<close>

fun join_elem :: "jsval \<Rightarrow> string" where
  "join_elem Undefined = []"
| "join_elem Null = []"
| "join_elem v = toString v"

fun array_join :: "string \<Rightarrow> jsval list \<Rightarrow> string" where
  "array_join sep [] = []"
| "array_join sep [x] = join_elem x"
| "array_join sep (x # y # rest) = join_elem x @ sep @ array_join sep (y # rest)"

definition addToSavedWords :: "jsval \<Rightarrow> page \<Rightarrow> page" where
  "addToSavedWords word st =
     (let st1 = st\<lparr>savedWordsArray := savedWordsArray st @ [word]\<rparr>
      in st1\<lparr>savedWords := array_join '', '' (savedWordsArray st1)\<rparr>)"

text \<open>Line 114 runs once when the script is loaded.\<close>

definition page_load :: "node list \<Rightarrow> string \<Rightarrow> page" where
  "page_load markup typed =
     \<lparr>wordOutput = markup, wordInput = typed, savedWords = ''(none)'',
      savedWordsArray = [], console = []\<rparr>"

text \<open>A run of save actions, one after the other.\<close>

fun saves :: "jsval list \<Rightarrow> page \<Rightarrow> page" where
  "saves [] st = st"
| "saves (w # ws) st = saves ws (addToSavedWords w st)"

definition generatesavedbtn :: "jsval \<Rightarrow> node" where
  "generatesavedbtn word = Button [''btn'', ''btn-outline-success''] ''(Save)'' word"

text \<open>Lines 141-146 and 162-167: the list element made for a word.\<close>

definition li_for :: "jsval \<Rightarrow> node" where
  "li_for word = Elem ''li'' [Raw (toString word @ '' ''), generatesavedbtn word]"

definition list_item :: "obj \<Rightarrow> node" where
  "list_item returned = li_for (get_prop returned ''word'')"

text \<open>
  What \<^verbatim>\<open>for (syllable in data)\<close> visits, with what \<^verbatim>\<open>data[syllable]\<close> reads there: the
  own keys with their groups, then the indices of the prototype array that no own key hides,
  where the read goes through the prototype and finds an item instead of a group.
\<close>

datatype member = Group "obj list" | Item obj

definition for_in :: "obj list jsobject \<Rightarrow> (string \<times> member) list" where
  "for_in data =
     map (\<lambda>(s, g). (s, Group g)) (entries data)
     @ (case proto data of
          None \<Rightarrow> []
        | Some g \<Rightarrow>
            filter (\<lambda>(i, x). i \<notin> fst ` set (props data))
              (map (\<lambda>(i, x). (nat_digits i, Item x)) (List.enumerate 0 g)))"

text \<open>
  Line 142 reads \<^verbatim>\<open>.word\<close> of \<^verbatim>\<open>data[syllable][returnval]\<close>. Under a group that is an item,
  read by \<open>get_prop\<close>. Under an item it is one of the item's property values: reading
  \<^verbatim>\<open>.word\<close> of \<^verbatim>\<open>undefined\<close> or \<^verbatim>\<open>null\<close> throws, and the other values have no such
  property.
\<close>

datatype js_error = TypeError

fun word_of_value :: "jsval \<Rightarrow> js_error + jsval" where
  "word_of_value Undefined = Inl TypeError"
| "word_of_value Null = Inl TypeError"
| "word_of_value v = Inr Undefined"

fun item_loop :: "obj \<Rightarrow> string list \<Rightarrow> js_error + node list" where
  "item_loop item [] = Inr []"
| "item_loop item (returnval # rest) =
     (case word_of_value (get_prop item returnval) of
        Inl e \<Rightarrow> Inl e
      | Inr word \<Rightarrow>
          (case item_loop item rest of
             Inl e \<Rightarrow> Inl e
           | Inr lis \<Rightarrow> Inr (li_for word # lis)))"

text \<open>Lines 133-149: a heading and a list for every key the outer loop visits.\<close>

fun section_loop :: "(string \<times> member) list \<Rightarrow> js_error + node list" where
  "section_loop [] = Inr []"
| "section_loop ((syllable, m) # rest) =
     (case (case m of
              Group members \<Rightarrow> Inr (map list_item members)
            | Item item \<Rightarrow> item_loop item (keys_order (map fst item))) of
        Inl e \<Rightarrow> Inl e
      | Inr lis \<Rightarrow>
          (case section_loop rest of
             Inl e \<Rightarrow> Inl e
           | Inr nodes \<Rightarrow>
               Inr (Elem ''h3'' [Raw (''Syllables: '' @ syllable)] # Elem ''ul'' lis # nodes)))"

text \<open>
  The page is written at line 127 or at lines 150-151 only: a \<^verbatim>\<open>TypeError\<close> thrown in the
  loops leaves \<^verbatim>\<open>showRhymes\<close> with the page as it was.
\<close>

definition showRhymes :: "obj list \<Rightarrow> page \<Rightarrow> page" where
  "showRhymes data st =
     (if length data = 0 then st\<lparr>wordOutput := [Raw ''(no results)'']\<rparr>
      else
        case section_loop (for_in (groupBy data (AttributeName ''numSyllables''))) of
          Inl e \<Rightarrow> st
        | Inr sections \<Rightarrow>
            st\<lparr>wordOutput :=
                 [Raw (''<h2>Words that rhyme with '' @ wordInput st @ ''<h2>''),
                  Elem ''div'' sections]\<rparr>)"

definition showSynonyms :: "obj list \<Rightarrow> page \<Rightarrow> page" where
  "showSynonyms data st =
     (if length data = 0 then st\<lparr>wordOutput := [Raw ''(no results)'']\<rparr>
      else
        let outputs = Elem ''ul'' (map list_item data)
        in st\<lparr>wordOutput :=
                 [Raw (''<h2>Words with a similar meaning to '' @ wordInput st @ ''<h2>''),
                  outputs]\<rparr>)"

section \<open>The Datamuse client\<close>

text \<open>
  \<^verbatim>\<open>URLSearchParams.prototype.toString\<close>: the form-urlencoded serialisation of the bytes
  of each name and value.
\<close>

definition hex_digit :: "nat \<Rightarrow> char" where
  "hex_digit d = ''0123456789ABCDEF'' ! d"

definition is_unreserved :: "char \<Rightarrow> bool" where
  "is_unreserved c =
     (let n = (of_char c :: nat)
      in (48 \<le> n \<and> n \<le> 57) \<or> (65 \<le> n \<and> n \<le> 90) \<or> (97 \<le> n \<and> n \<le> 122)
         \<or> c \<in> set ''*-._'')"

definition encode_byte :: "char \<Rightarrow> string" where
  "encode_byte c =
     (if c = CHR '' '' then ''+''
      else if is_unreserved c then [c]
      else [CHR ''%'', hex_digit ((of_char c :: nat) div 16), hex_digit ((of_char c :: nat) mod 16)])"

definition urlencode :: "string \<Rightarrow> string" where
  "urlencode s = concat (map encode_byte s)"

fun URLSearchParams_toString :: "(string \<times> string) list \<Rightarrow> string" where
  "URLSearchParams_toString [] = []"
| "URLSearchParams_toString [(n, v)] = urlencode n @ ''='' @ urlencode v"
| "URLSearchParams_toString ((n, v) # p # ps) =
     urlencode n @ ''='' @ urlencode v @ ''&'' @ URLSearchParams_toString (p # ps)"

text \<open>Lines 85-87 and 98-100: both builders read the input field, not their parameter.\<close>

definition getDatamuseRhymeUrl :: "page \<Rightarrow> string \<Rightarrow> string" where
  "getDatamuseRhymeUrl st rel_rhy =
     ''https://api.datamuse.com/words?'' @ URLSearchParams_toString [(''rel_rhy'', wordInput st)]"

definition getDatamuseSimilarToUrl :: "page \<Rightarrow> string \<Rightarrow> string" where
  "getDatamuseSimilarToUrl st ml =
     ''https://api.datamuse.com/words?'' @ URLSearchParams_toString [(''ml'', wordInput st)]"

text \<open>
  How the promise chain of a request ends: \<^verbatim>\<open>fetch\<close> rejects, \<^verbatim>\<open>response.json()\<close> rejects,
  or the body parses to the array of results. The outcome is given by the network; the page
  it meets is the page at the time the chain settles.
\<close>

datatype outcome = FetchRejected string | JsonRejected string | Parsed "obj list"

definition console_error :: "string \<Rightarrow> page \<Rightarrow> page" where
  "console_error err st = st\<lparr>console := console st @ [err]\<rparr>"

record pending =
  fetched :: string
  settle :: "outcome \<Rightarrow> page \<Rightarrow> page"

definition datamuseRequest :: "string \<Rightarrow> (obj list \<Rightarrow> page \<Rightarrow> page) \<Rightarrow> pending" where
  "datamuseRequest url callback =
     \<lparr>fetched = url,
      settle = (\<lambda>result. case result of
                  Parsed data \<Rightarrow> callback data
                | FetchRejected err \<Rightarrow> console_error err
                | JsonRejected err \<Rightarrow> console_error err)\<rparr>"

section \<open>The event listeners\<close>

text \<open>Each listener returns the page after its synchronous part and the requests it issued.\<close>

definition showRhymesButton_click :: "page \<Rightarrow> page \<times> pending list" where
  "showRhymesButton_click st =
     (let st1 = st\<lparr>wordOutput := [Raw ''<h2>...loading<h2>'']\<rparr>
      in (st1, [datamuseRequest (getDatamuseRhymeUrl st1 (wordInput st1)) showRhymes]))"

definition wordInput_keypress :: "string \<Rightarrow> page \<Rightarrow> page \<times> pending list" where
  "wordInput_keypress key st =
     (if key = ''Enter''
      then let st1 = st\<lparr>wordOutput := [Raw ''<h2>...loading<h2>'']\<rparr>
           in (st1, [datamuseRequest (getDatamuseRhymeUrl st1 (wordInput st1)) showRhymes])
      else (st, []))"

definition showSynonymsButton_click :: "page \<Rightarrow> page \<times> pending list" where
  "showSynonymsButton_click st =
     (let st1 = st\<lparr>wordOutput := [Raw ''<h2>...loading<h2>'']\<rparr>
      in (st1, [datamuseRequest (getDatamuseSimilarToUrl st1 (wordInput st1)) showSynonyms]))"

section \<open>The Datamuse client: properties\<close>

text \<open>
  Claim C3. Each URL builder is documented to build the request for the word passed as its
  argument. Evaluated with \<open>cat\<close> typed into the input field and \<open>dog\<close> passed as the
  argument, both builders return the URL for \<open>cat\<close>: the argument is not used.
\<close>

theorem url_builders_ignore_argument:
  "getDatamuseRhymeUrl (page_load [] ''cat'') ''dog''
     = ''https://api.datamuse.com/words?rel_rhy=cat''
   \<and> getDatamuseSimilarToUrl (page_load [] ''cat'') ''dog''
     = ''https://api.datamuse.com/words?ml=cat''"
  by (simp add: getDatamuseRhymeUrl_def getDatamuseSimilarToUrl_def page_load_def urlencode_def
      encode_byte_def is_unreserved_def)

text \<open>
  Claim C4. For every URL and continuation, when the fetch or the parsing of the body is
  rejected, the chain settles by appending the error to the console and changes nothing else
  of the page: the outcome does not depend on the continuation, which is not run, and the
  display is the one the page had.
\<close>

theorem datamuseRequest_failure_logged:
  "settle (datamuseRequest url callback) (FetchRejected err) st
     = st\<lparr>console := console st @ [err]\<rparr>
   \<and> settle (datamuseRequest url callback) (JsonRejected err) st
     = st\<lparr>console := console st @ [err]\<rparr>
   \<and> wordOutput (settle (datamuseRequest url callback) (FetchRejected err) st) = wordOutput st
   \<and> wordOutput (settle (datamuseRequest url callback) (JsonRejected err) st) = wordOutput st"
  by (simp add: datamuseRequest_def console_error_def)

section \<open>The saved words: properties\<close>

lemma saves_append: "saves (ws @ [w]) st = addToSavedWords w (saves ws st)"
  by (induction ws arbitrary: st) simp_all

lemma saves_array: "savedWordsArray (saves ws st) = savedWordsArray st @ ws"
  by (induction ws arbitrary: st) (simp_all add: addToSavedWords_def)

text \<open>
  The markup assigned by a run of saves: the saved list grows by the saved words in save
  order, and the markup is the list joined by a comma and a space.
\<close>

lemma saves_markup:
  "savedWordsArray (saves (ws @ [w]) st) = savedWordsArray st @ ws @ [w]
   \<and> savedWords (saves (ws @ [w]) st) = array_join '', '' (savedWordsArray st @ ws @ [w])"
  by (simp add: saves_append saves_array addToSavedWords_def)

lemma text_content_plain: "text_content ''cat, hat'' = Some ''cat, hat''"
  by simp

text \<open>
  Claim C5. After a save, the displayed saved words should be the saved words joined by a
  comma and a space. Evaluated on the freshly loaded page for the word \<open>a<b\<close>: the join
  \<open>a<b\<close> is assigned as markup, the parser drops the unfinished tag, and the text the
  element then holds is \<open>a\<close>.
\<close>

theorem saved_markup_not_shown:
  "savedWords (addToSavedWords (Str ''a<b'') (page_load [] '''')) = ''a<b''
   \<and> text_content (savedWords (addToSavedWords (Str ''a<b'') (page_load [] ''''))) = Some ''a''"
  by (simp add: addToSavedWords_def page_load_def is_ascii_alpha_def)

section \<open>The renderers and the listeners: properties\<close>

text \<open>
  Claim C7. Both renderers, given an empty result sequence, replace the display by the
  \<open>(no results)\<close> indicator, and the display then holds no save control.
\<close>

theorem empty_results_render:
  "wordOutput (showRhymes [] st) = [Raw ''(no results)'']
   \<and> wordOutput (showSynonyms [] st) = [Raw ''(no results)'']
   \<and> concat (map save_controls (wordOutput (showRhymes [] st))) = []
   \<and> concat (map save_controls (wordOutput (showSynonyms [] st))) = []"
  by (simp add: showRhymes_def showSynonyms_def)

text \<open>
  Claim C9. The keypress listener, on the Enter key, does what the click listener of the
  rhymes button does: the display becomes the loading indicator and one request is issued,
  for the rhyme URL of the word in the input field, whose parsed response is handed to
  \<open>showRhymes\<close>.
\<close>

theorem enter_key_is_rhymes_click:
  "wordInput_keypress ''Enter'' st = showRhymesButton_click st
   \<and> showRhymesButton_click st =
       (st\<lparr>wordOutput := [Raw ''<h2>...loading<h2>'']\<rparr>,
        [datamuseRequest (''https://api.datamuse.com/words?rel_rhy='' @ urlencode (wordInput st))
           showRhymes])
   \<and> settle (datamuseRequest url showRhymes) (Parsed data) = showRhymes data"
  by (simp add: wordInput_keypress_def showRhymesButton_click_def getDatamuseRhymeUrl_def
      datamuseRequest_def urlencode_def encode_byte_def is_unreserved_def)

section \<open>groupBy: what the two loops compute\<close>

lemma map_fst_update:
  "map fst (AList.update k v al) = (if k \<in> set (map fst al) then map fst al else map fst al @ [k])"
  by (induction al) auto

lemma map_fst_map_entry: "map fst (AList.map_entry k f al) = map fst al"
  by (induction al) auto

lemma group_loop_step:
  "group_loop p (ob # rest) m = group_loop p rest (group_step m (p ob) ob)"
  by (simp add: group_step_def Let_def)

lemma group_step_keys: "Map_keys (group_step m k x) = add_new (Map_keys m) k"
  by (simp add: group_step_def Map_keys_def Map_has_def Map_set_def Map_get_push_def
        map_fst_map_entry map_fst_update add_new_def)

lemma group_step_get:
  "map_of (group_step m k x) =
     (map_of m)(k \<mapsto> (case map_of m k of None \<Rightarrow> [] | Some g \<Rightarrow> g) @ [x])"
proof (cases "map_of m k")
  case None
  then have "\<not> Map_has m k" by (simp add: Map_has_def map_of_eq_None_iff)
  then show ?thesis using None
    by (simp add: group_step_def Map_set_def Map_get_push_def map_of_map_entry update_conv')
next
  case (Some g)
  then have "Map_has m k" by (auto simp: Map_has_def dest: map_of_SomeD intro: image_eqI[where x="(k, g)"])
  then show ?thesis using Some
    by (auto simp add: group_step_def Map_set_def Map_get_push_def map_of_map_entry)
qed

lemma group_loop_keys:
  "Map_keys (group_loop p objs m) = foldl add_new (Map_keys m) (map p objs)"
proof (induction objs arbitrary: m)
  case Nil
  show ?case by simp
next
  case (Cons ob rest)
  show ?case unfolding group_loop_step by (simp add: Cons.IH group_step_keys)
qed

lemma group_loop_get:
  "map_of (group_loop p objs m) k =
     (case map_of m k of
        None \<Rightarrow> (if k \<in> p ` set objs then Some (filter (\<lambda>x. p x = k) objs) else None)
      | Some g \<Rightarrow> Some (g @ filter (\<lambda>x. p x = k) objs))"
proof (induction objs arbitrary: m)
  case Nil
  show ?case by (simp split: option.splits)
next
  case (Cons ob rest)
  show ?case unfolding group_loop_step
    by (auto simp add: Cons.IH group_step_get split: option.splits)
qed

lemma set_foldl_add_new: "set (foldl add_new acc xs) = set acc \<union> set xs"
  by (induction xs arbitrary: acc) (auto simp: add_new_def)

lemma distinct_foldl_add_new: "distinct acc \<Longrightarrow> distinct (foldl add_new acc xs)"
  by (induction xs arbitrary: acc) (auto simp: add_new_def)

lemma Map_keys_empty: "Map_keys [] = []"
  by (simp add: Map_keys_def)

lemma grouped_keys_set: "set (Map_keys (group_loop p objs [])) = p ` set objs"
  by (simp add: group_loop_keys set_foldl_add_new Map_keys_empty)


lemma grouped_get:
  "Map_get (group_loop p objs []) k =
     (if k \<in> p ` set objs then Some (filter (\<lambda>x. p x = k) objs) else None)"
  by (simp add: Map_get_def group_loop_get)

lemma set_sort_default: "set (sort_default ks) = set ks"
  by (auto simp: sort_default_def)


lemma write_order_set: "set (write_order objs sel) = as_function sel ` set objs"
  by (simp add: write_order_def set_sort_default grouped_keys_set)



lemma own_value_assign:
  "own_value (obj_assign ob t v) s =
     (if t = ''__proto__'' then own_value ob s else if t = s then Some v else own_value ob s)"
  by (simp add: own_value_def obj_assign_def update_conv')

lemma props_assign:
  "map fst (props (obj_assign ob t v)) =
     (if t = ''__proto__'' then map fst (props ob) else add_new (map fst (props ob)) t)"
  by (simp add: obj_assign_def map_fst_update add_new_def)


lemma result_loop_get:
  "\<forall>k \<in> set ks. Map_get m k \<noteq> None \<Longrightarrow>
   own_value (result_loop ks m R0) s =
     (if s = ''__proto__'' then own_value R0 s
      else case filter (\<lambda>k. toString k = s) ks of
             [] \<Rightarrow> own_value R0 s
           | f # fs \<Rightarrow> Map_get m (last (f # fs)))"
proof (induction ks arbitrary: R0)
  case Nil
  show ?case by simp
next
  case (Cons key rest)
  from Cons.prems obtain g where g: "Map_get m key = Some g" by auto
  from Cons.prems have rest: "\<forall>k \<in> set rest. Map_get m k \<noteq> None" by simp
  show ?case
    by (auto simp add: g Cons.IH [OF rest] own_value_assign split: list.splits)
qed

lemma result_loop_keys:
  "\<forall>k \<in> set ks. Map_get m k \<noteq> None \<Longrightarrow>
   map fst (props (result_loop ks m R0)) =
     foldl add_new (map fst (props R0)) (filter (\<lambda>s. s \<noteq> ''__proto__'') (map toString ks))"
proof (induction ks arbitrary: R0)
  case Nil
  show ?case by simp
next
  case (Cons key rest)
  from Cons.prems obtain g where g: "Map_get m key = Some g" by auto
  from Cons.prems have rest: "\<forall>k \<in> set rest. Map_get m k \<noteq> None" by simp
  show ?case
    by (simp add: g Cons.IH [OF rest] props_assign)
qed


lemma write_order_present:
  "\<forall>k \<in> set (write_order objs sel). Map_get (group_loop (as_function sel) objs []) k \<noteq> None"
  by (simp add: write_order_set grouped_get)

lemma groupBy_keys:
  "map fst (props (groupBy objs sel)) =
     foldl add_new [] (filter (\<lambda>s. s \<noteq> ''__proto__'') (map toString (write_order objs sel)))"
  using result_loop_keys [OF write_order_present, of objs sel empty_object]
  by (simp add: groupBy_def write_order_def Let_def empty_object_def)

lemma groupBy_keys_set:
  "set (map fst (props (groupBy objs sel))) = toString ` as_function sel ` set objs - {''__proto__''}"
  unfolding groupBy_keys by (auto simp add: set_foldl_add_new write_order_set)

lemma groupBy_keys_distinct: "distinct (map fst (props (groupBy objs sel)))"
  by (simp add: groupBy_keys distinct_foldl_add_new)

lemma winner_last:
  "filter (\<lambda>k. toString k = s) (write_order objs sel) = f # fs \<Longrightarrow>
   Map_get (group_loop (as_function sel) objs []) (last (f # fs))
     = Some (filter (\<lambda>x. as_function sel x = winner objs sel s) objs)"
proof -
  assume eq: "filter (\<lambda>k. toString k = s) (write_order objs sel) = f # fs"
  have "last (f # fs) \<in> set (filter (\<lambda>k. toString k = s) (write_order objs sel))"
    using eq last_in_set [of "f # fs"] by simp
  then have "last (f # fs) \<in> as_function sel ` set objs"
    by (simp add: write_order_set)
  then show ?thesis by (simp add: grouped_get winner_def eq)
qed

lemma filter_write_order_empty:
  "filter (\<lambda>k. toString k = s) (write_order objs sel) = []
     \<longleftrightarrow> s \<notin> toString ` as_function sel ` set objs"
  by (auto simp: filter_empty_conv write_order_set)

lemma groupBy_lookup:
  "own_value (groupBy objs sel) s =
     (if s \<in> toString ` as_function sel ` set objs \<and> s \<noteq> ''__proto__''
      then Some (filter (\<lambda>x. as_function sel x = winner objs sel s) objs)
      else None)"
proof (cases "filter (\<lambda>k. toString k = s) (write_order objs sel)")
  case Nil
  then have notin: "s \<notin> toString ` as_function sel ` set objs"
    by (simp add: filter_write_order_empty)
  show ?thesis
    using result_loop_get [OF write_order_present, of objs sel empty_object s] Nil notin
    by (simp add: groupBy_def write_order_def Let_def empty_object_def own_value_def)
next
  case (Cons f fs)
  then have "filter (\<lambda>k. toString k = s) (write_order objs sel) \<noteq> []" by simp
  then have isin: "s \<in> toString ` as_function sel ` set objs"
    by (simp add: filter_write_order_empty)
  show ?thesis
    using result_loop_get [OF write_order_present, of objs sel empty_object s] Cons isin
      winner_last [OF Cons]
    by (simp add: groupBy_def write_order_def Let_def empty_object_def own_value_def)
qed


lemma winner_props:
  assumes "s \<in> toString ` as_function sel ` set objs"
  shows "toString (winner objs sel s) = s" and "winner objs sel s \<in> as_function sel ` set objs"
proof -
  let ?fs = "filter (\<lambda>k. toString k = s) (write_order objs sel)"
  from assms have "s \<in> toString ` set (write_order objs sel)" by (simp add: write_order_set)
  then have "?fs \<noteq> []" by (auto simp: filter_empty_conv)
  then have "last ?fs \<in> set ?fs" by (rule last_in_set)
  then show "toString (winner objs sel s) = s" and "winner objs sel s \<in> as_function sel ` set objs"
    by (simp_all add: winner_def write_order_set)
qed

lemma winner_inj:
  assumes "inj_on toString (as_function sel ` set objs)" and "k \<in> as_function sel ` set objs"
  shows "winner objs sel (toString k) = k"
proof -
  have "toString k \<in> toString ` as_function sel ` set objs" using assms(2) by simp
  from winner_props [OF this] assms show ?thesis by (auto dest: inj_onD)
qed

lemma ownKeys_set: "set (ownKeys R) = set (map fst (props R))"
  by (auto simp: ownKeys_def keys_order_def)

lemma ownKeys_distinct: "distinct (map fst (props R)) \<Longrightarrow> distinct (ownKeys R)"
  by (auto simp: ownKeys_def keys_order_def)

lemma groupBy_ownKeys_set:
  "set (ownKeys (groupBy objs sel)) = toString ` as_function sel ` set objs - {''__proto__''}"
  by (simp only: ownKeys_set groupBy_keys_set)

lemma concat_map_singletons:
  "\<forall>x \<in> set xs. f x = [g x] \<Longrightarrow> concat (map f xs) = map g xs"
  by (induction xs) simp_all

lemma concat_map_single:
  "distinct ss \<Longrightarrow> concat (map (\<lambda>s. if s = a then G else []) ss) = (if a \<in> set ss then G else [])"
  by (induction ss) auto

lemma entries_groupBy:
  "entries (groupBy objs sel) =
     map (\<lambda>s. (s, filter (\<lambda>x. as_function sel x = winner objs sel s) objs))
       (ownKeys (groupBy objs sel))"
  unfolding entries_def
  by (rule concat_map_singletons) (simp add: groupBy_ownKeys_set groupBy_lookup)

lemma flatten_groupBy:
  "flatten (groupBy objs sel) =
     concat (map (\<lambda>s. filter (\<lambda>x. as_function sel x = winner objs sel s) objs)
       (ownKeys (groupBy objs sel)))"
  by (simp add: flatten_def entries_groupBy comp_def)

lemma filter_flatten:
  "filter (\<lambda>x. as_function sel x = k) (flatten (groupBy objs sel)) =
     (if winner objs sel (toString k) = k \<and> toString k \<noteq> ''__proto__''
      then filter (\<lambda>x. as_function sel x = k) objs else [])"
proof -
  let ?p = "as_function sel"
  let ?ks = "ownKeys (groupBy objs sel)"
  let ?G = "filter (\<lambda>x. ?p x = k) objs"
  let ?c = "winner objs sel (toString k) = k"
  have keys: "set ?ks = toString ` ?p ` set objs - {''__proto__''}"
    by (rule groupBy_ownKeys_set)
  have each: "filter (\<lambda>x. ?p x = k) (filter (\<lambda>x. ?p x = winner objs sel s) objs)
      = (if s = toString k then (if ?c then ?G else []) else [])" if "s \<in> set ?ks" for s
  proof (cases "winner objs sel s = k")
    case True
    from that keys have "toString (winner objs sel s) = s" by (simp add: winner_props)
    with True have "s = toString k" by simp
    with True show ?thesis by (simp cong: conj_cong)
  next
    case False
    then have "filter (\<lambda>x. ?p x = k) (filter (\<lambda>x. ?p x = winner objs sel s) objs) = []"
      by (auto simp: filter_empty_conv)
    with False show ?thesis by auto
  qed
  have "filter (\<lambda>x. ?p x = k) (flatten (groupBy objs sel))
      = concat (map (\<lambda>s. filter (\<lambda>x. ?p x = k) (filter (\<lambda>x. ?p x = winner objs sel s) objs)) ?ks)"
    by (simp add: flatten_groupBy filter_concat comp_def)
  also have "\<dots> = concat (map (\<lambda>s. if s = toString k then (if ?c then ?G else []) else []) ?ks)"
    using each by (simp cong: map_cong)
  also have "\<dots> = (if toString k \<in> set ?ks then (if ?c then ?G else []) else [])"
    by (rule concat_map_single) (simp add: ownKeys_distinct groupBy_keys_distinct)
  also have "\<dots> = (if ?c \<and> toString k \<noteq> ''__proto__'' then ?G else [])"
  proof (cases "toString k \<in> set ?ks")
    case True
    with keys show ?thesis by simp
  next
    case False
    show ?thesis
    proof (cases "toString k = ''__proto__''")
      case True
      with False show ?thesis by simp
    next
      case neq: False
      with False keys have "k \<notin> ?p ` set objs" by auto
      then have "?G = []" by (auto simp: filter_empty_conv)
      with False show ?thesis by simp
    qed
  qed
  finally show ?thesis .
qed

lemma filter_undefined_twice:
  "filter (\<lambda>k. toString k = ''undefined'') (filter (\<lambda>k. k = Undefined) xs)
     = filter (\<lambda>k. k = Undefined) xs"
  by (induction xs) auto

lemma winner_undefined:
  assumes "Undefined \<in> as_function sel ` set objs"
  shows "winner objs sel ''undefined'' = Undefined"
proof -
  let ?K = "Map_keys (group_loop (as_function sel) objs [])"
  let ?U = "filter (\<lambda>k. k = Undefined) ?K"
  from assms have "Undefined \<in> set ?K" by (simp add: grouped_keys_set)
  then have ne: "?U \<noteq> []" by (auto simp: filter_empty_conv)
  have all: "filter (\<lambda>k. toString k = ''undefined'') ?U = ?U"
    by (rule filter_undefined_twice)
  have "last ?U \<in> set ?U" using ne by (rule last_in_set)
  then have "last ?U = Undefined" by simp
  moreover have "filter (\<lambda>k. toString k = ''undefined'') (write_order objs sel)
      = filter (\<lambda>k. toString k = ''undefined'')
          (sort_key toString (filter (\<lambda>k. k \<noteq> Undefined) ?K)) @ ?U"
    by (simp only: write_order_def sort_default_def filter_append all)
  ultimately show ?thesis using ne
    by (simp only: winner_def last_append if_False)
qed

section \<open>groupBy: regrouping the flattened result, worked examples\<close>

lemma flat_mem:
  "k \<in> as_function sel ` set (flatten (groupBy objs sel))
     \<longleftrightarrow> k \<in> as_function sel ` set objs
          \<and> (winner objs sel (toString k) = k \<and> toString k \<noteq> ''__proto__'')"
proof -
  let ?p = "as_function sel"
  let ?flat = "flatten (groupBy objs sel)"
  have "k \<in> ?p ` set ?flat \<longleftrightarrow> filter (\<lambda>x. ?p x = k) ?flat \<noteq> []"
    by (auto simp: filter_empty_conv)
  also have "\<dots> \<longleftrightarrow> (winner objs sel (toString k) = k \<and> toString k \<noteq> ''__proto__'')
       \<and> filter (\<lambda>x. ?p x = k) objs \<noteq> []"
    by (simp only: filter_flatten) simp
  also have "\<dots> \<longleftrightarrow> k \<in> ?p ` set objs
       \<and> (winner objs sel (toString k) = k \<and> toString k \<noteq> ''__proto__'')"
    by (auto simp: filter_empty_conv)
  finally show ?thesis .
qed

lemma flat_winner:
  "k \<in> as_function sel ` set (flatten (groupBy objs sel)) \<Longrightarrow> winner objs sel (toString k) = k"
  by (simp only: flat_mem)

lemma flat_inj: "inj_on toString (as_function sel ` set (flatten (groupBy objs sel)))"
proof (rule inj_onI)
  fix k k'
  assume k: "k \<in> as_function sel ` set (flatten (groupBy objs sel))"
    and k': "k' \<in> as_function sel ` set (flatten (groupBy objs sel))"
    and eq: "toString k = toString k'"
  from flat_winner [OF k] flat_winner [OF k'] eq show "k = k'" by metis
qed

lemma flat_wmem:
  assumes "s \<in> toString ` as_function sel ` set objs" and "s \<noteq> ''__proto__''"
  shows "winner objs sel s \<in> as_function sel ` set (flatten (groupBy objs sel))"
proof -
  have ts: "toString (winner objs sel s) = s" using assms(1) by (rule winner_props(1))
  have "winner objs sel s \<in> as_function sel ` set objs" using assms(1) by (rule winner_props(2))
  moreover have "winner objs sel (toString (winner objs sel s)) = winner objs sel s"
    by (simp only: ts)
  moreover have "toString (winner objs sel s) \<noteq> ''__proto__''" using assms(2) ts by metis
  ultimately show ?thesis by (simp only: flat_mem simp_thms)
qed

lemma flat_keys:
  "toString ` as_function sel ` set (flatten (groupBy objs sel)) - {''__proto__''}
     = toString ` as_function sel ` set objs - {''__proto__''}"
proof (rule set_eqI, rule iffI)
  fix s
  assume "s \<in> toString ` as_function sel ` set (flatten (groupBy objs sel)) - {''__proto__''}"
  then obtain k where k: "k \<in> as_function sel ` set (flatten (groupBy objs sel))"
    and s: "s = toString k" and ne: "s \<noteq> ''__proto__''" by auto
  from k have "k \<in> as_function sel ` set objs" by (simp only: flat_mem)
  with s ne show "s \<in> toString ` as_function sel ` set objs - {''__proto__''}" by simp
next
  fix s
  assume "s \<in> toString ` as_function sel ` set objs - {''__proto__''}"
  then have s: "s \<in> toString ` as_function sel ` set objs" and ne: "s \<noteq> ''__proto__''"
    by simp_all
  from flat_wmem [OF s ne]
  have "toString (winner objs sel s) \<in> toString ` as_function sel ` set (flatten (groupBy objs sel))"
    by (rule imageI)
  with winner_props(1) [OF s] ne
  show "s \<in> toString ` as_function sel ` set (flatten (groupBy objs sel)) - {''__proto__''}"
    by simp
qed

lemma flat_keys_iff:
  "s \<in> toString ` as_function sel ` set (flatten (groupBy objs sel)) \<and> s \<noteq> ''__proto__''
     \<longleftrightarrow> s \<in> toString ` as_function sel ` set objs \<and> s \<noteq> ''__proto__''"
proof -
  have "s \<in> toString ` as_function sel ` set (flatten (groupBy objs sel)) - {''__proto__''}
     \<longleftrightarrow> s \<in> toString ` as_function sel ` set objs - {''__proto__''}"
    by (simp only: flat_keys)
  then show ?thesis by (simp only: Diff_iff singleton_iff)
qed

lemma flat_lookup:
  "own_value (groupBy (flatten (groupBy objs sel)) sel) s = own_value (groupBy objs sel) s"
proof (cases "s \<in> toString ` as_function sel ` set objs \<and> s \<noteq> ''__proto__''")
  case False
  then have "\<not> (s \<in> toString ` as_function sel ` set (flatten (groupBy objs sel)) \<and> s \<noteq> ''__proto__'')"
    unfolding flat_keys_iff .
  with False show ?thesis by (simp only: groupBy_lookup simp_thms if_False)
next
  case True
  let ?p = "as_function sel"
  let ?flat = "flatten (groupBy objs sel)"
  let ?w = "winner objs sel"
  from True have s: "s \<in> toString ` ?p ` set objs" and ne: "s \<noteq> ''__proto__''" by simp_all
  have ts: "toString (?w s) = s" using winner_props(1) [OF s] .
  have "winner ?flat sel (toString (?w s)) = ?w s"
    using flat_inj flat_wmem [OF s ne] by (rule winner_inj)
  then have w2: "winner ?flat sel s = ?w s" by (simp only: ts)
  have "?w (toString (?w s)) = ?w s \<and> toString (?w s) \<noteq> ''__proto__''"
    using ne ts by metis
  then have f: "filter (\<lambda>x. ?p x = ?w s) ?flat = filter (\<lambda>x. ?p x = ?w s) objs"
    by (simp add: filter_flatten)
  from True
  have T2: "s \<in> toString ` ?p ` set ?flat \<and> s \<noteq> ''__proto__''" unfolding flat_keys_iff .
  have "own_value (groupBy ?flat sel) s = Some (filter (\<lambda>x. ?p x = winner ?flat sel s) ?flat)"
    using T2 by (simp only: groupBy_lookup simp_thms if_True)
  also have "\<dots> = Some (filter (\<lambda>x. ?p x = ?w s) objs)" by (simp only: w2 f)
  also have "\<dots> = own_value (groupBy objs sel) s"
    using True by (simp only: groupBy_lookup simp_thms if_True)
  finally show ?thesis .
qed

lemma array_index_examples:
  "is_array_index ''1''" "is_array_index ''2''" "is_array_index ''5''"
  "\<not> is_array_index ''-1''" "\<not> is_array_index ''undefined''"
  by (simp_all add: is_array_index_def is_digit_def digits_value_def nat_digits.simps digit_char_def)

lemma digits_value_examples:
  "digits_value ''1'' = 1" "digits_value ''2'' = 2" "digits_value ''5'' = 5"
  by (simp_all add: digits_value_def)

lemmas run_defs = groupBy_def write_order_def Map_has_def Map_set_def Map_get_def Map_keys_def
  Map_get_push_def sort_default_def obj_assign_def empty_object_def own_value_def get_prop_def
  object_prototype_names_def ownKeys_def keys_order_def entries_def flatten_def
  array_index_examples digits_value_examples Let_def

section \<open>groupBy: properties\<close>

text \<open>
  Claim C1. Every input item should appear in exactly one output group, the group of its
  selector value. Evaluated on an item whose value is the number 2 followed by an item whose
  value is the string \<open>2\<close>: both group names become the property name \<open>2\<close>, the group
  written second replaces the first, and the first item is in no group of the result.
\<close>

theorem groupBy_collision_loses_item:
  "groupBy [[(''n'', Num ''2'')], [(''n'', Str ''2'')]] (AttributeName ''n'')
     = \<lparr>props = [(''2'', [[(''n'', Str ''2'')]])], proto = None\<rparr>
   \<and> [(''n'', Num ''2'')]
       \<notin> set (flatten (groupBy [[(''n'', Num ''2'')], [(''n'', Str ''2'')]] (AttributeName ''n'')))"
  by (simp add: run_defs)

text \<open>
  Claim C2. The keys of the output should enumerate in ascending order of their string
  forms. Evaluated on items with the values 5 and -1: the object lists the array index
  \<open>5\<close> before the key \<open>-1\<close>, although \<open>-1\<close> comes first in the order of strings.
\<close>

theorem groupBy_keys_not_ascending:
  "ownKeys (groupBy [[(''n'', Num ''5'')], [(''n'', Num ''-1'')]] (AttributeName ''n''))
     = [''5'', ''-1'']
   \<and> (''-1'' :: string) < ''5''"
  by (simp add: run_defs)

text \<open>
  Claim C6. Grouping the concatenation of the groups (taken in enumeration order) again
  by the same selector gives the same mapping: the same keys, and under every key the same
  group with the same order.
\<close>

theorem regroup_flattened:
  "own_value (groupBy (flatten (groupBy objs sel)) sel) = own_value (groupBy objs sel)
   \<and> set (ownKeys (groupBy (flatten (groupBy objs sel)) sel)) = set (ownKeys (groupBy objs sel))"
proof
  show "own_value (groupBy (flatten (groupBy objs sel)) sel) = own_value (groupBy objs sel)"
    by (rule ext) (rule flat_lookup)
  show "set (ownKeys (groupBy (flatten (groupBy objs sel)) sel)) = set (ownKeys (groupBy objs sel))"
    by (simp only: groupBy_ownKeys_set flat_keys)
qed

text \<open>
  Claim C8. Grouping the empty sequence gives the empty object. When the selector gives
  \<^verbatim>\<open>undefined\<close> for some items, the output has the key \<open>undefined\<close>, its group is exactly
  those items in input order, and each of them occurs once in the whole output: none is
  dropped.
\<close>

theorem undefined_group_kept:
  "groupBy [] sel = empty_object
   \<and> (Undefined \<in> as_function sel ` set objs \<longrightarrow>
        own_value (groupBy objs sel) ''undefined''
          = Some (filter (\<lambda>x. as_function sel x = Undefined) objs)
        \<and> filter (\<lambda>x. as_function sel x = Undefined) (flatten (groupBy objs sel))
          = filter (\<lambda>x. as_function sel x = Undefined) objs)"
proof (intro conjI impI)
  show "groupBy [] sel = empty_object"
    by (simp add: groupBy_def Map_keys_def sort_default_def)
next
  assume u: "Undefined \<in> as_function sel ` set objs"
  then have "toString Undefined \<in> toString ` as_function sel ` set objs" by (rule imageI)
  then show "own_value (groupBy objs sel) ''undefined''
          = Some (filter (\<lambda>x. as_function sel x = Undefined) objs)"
    by (simp add: groupBy_lookup winner_undefined [OF u])
  show "filter (\<lambda>x. as_function sel x = Undefined) (flatten (groupBy objs sel))
          = filter (\<lambda>x. as_function sel x = Undefined) objs"
    by (simp add: filter_flatten winner_undefined [OF u])
qed

text \<open>
  Two results without a syllable count around one with a count.
\<close>

theorem undefined_group_kept_witness:
  "Undefined \<in> as_function (AttributeName ''numSyllables'')
        ` set [[(''word'', Str ''a'')], [(''word'', Str ''b''), (''numSyllables'', Num ''1'')], [(''word'', Str ''c'')]]
   \<and> own_value (groupBy [[(''word'', Str ''a'')], [(''word'', Str ''b''), (''numSyllables'', Num ''1'')], [(''word'', Str ''c'')]]
                (AttributeName ''numSyllables'')) ''undefined''
       = Some [[(''word'', Str ''a'')], [(''word'', Str ''c'')]]"
proof -
  let ?objs = "[[(''word'', Str ''a'')], [(''word'', Str ''b''), (''numSyllables'', Num ''1'')], [(''word'', Str ''c'')]]"
  let ?sel = "AttributeName ''numSyllables''"
  have h: "Undefined \<in> as_function ?sel ` set ?objs"
    by (simp add: get_prop_def object_prototype_names_def)
  from undefined_group_kept [of ?sel ?objs] h
  have "own_value (groupBy ?objs ?sel) ''undefined''
          = Some (filter (\<lambda>x. as_function ?sel x = Undefined) ?objs)" by blast
  then have "own_value (groupBy ?objs ?sel) ''undefined'' = Some [[(''word'', Str ''a'')], [(''word'', Str ''c'')]]"
    by (simp add: get_prop_def object_prototype_names_def)
  with h show ?thesis by blast
qed




end
